theory Spec2Isabelle
  imports Complex_Main "HOL-Library.Word" "HOL-Library.Signed_Division"
begin

section \<open>Machine integers\<close>

text \<open>
  Every coordinate and coefficient of \<^verbatim>\<open>testing_system.cpp\<close> is a C++ \<^verbatim>\<open>int\<close>; a
  few results are widened to \<^verbatim>\<open>long long\<close>. An \<^verbatim>\<open>int\<close> is a 32-bit word and a
  \<^verbatim>\<open>long long\<close> a 64-bit word. C++ leaves the result of an overflowing signed operation
  undefined; the model gives it the two's-complement result that the usual targets
  compute, so \<open>+\<close>, \<open>-\<close> and \<open>*\<close> on words wrap around. Comparisons read a word as a
  signed number with \<open>sint\<close>.
\<close>

type_synonym int32 = "32 word"
type_synonym int64 = "64 word"

text \<open>The implicit conversion from \<^verbatim>\<open>int\<close> to \<^verbatim>\<open>long long\<close>: sign extension.\<close>

definition widen :: "int32 \<Rightarrow> int64" where
  "widen w = scast w"

text \<open>\<^verbatim>\<open>static_cast<int>\<close> of a \<^verbatim>\<open>long long\<close>: the low 32 bits.\<close>

definition narrow :: "int64 \<Rightarrow> int32" where
  "narrow w = ucast w"

text \<open>Division of \<^verbatim>\<open>long long\<close> values truncates towards zero.\<close>

definition sdiv64 :: "int64 \<Rightarrow> int64 \<Rightarrow> int64" where
  "sdiv64 a b = word_of_int (sint a sdiv sint b)"

text \<open>The remainder \<^verbatim>\<open>%\<close> of \<^verbatim>\<open>int\<close> values takes the sign of the dividend.\<close>

definition srem32 :: "int32 \<Rightarrow> int32 \<Rightarrow> int32" where
  "srem32 a b = word_of_int (sint a smod sint b)"

section \<open>Data model\<close>

text \<open>
  The private members \<^verbatim>\<open>x_\<close>, \<^verbatim>\<open>y_\<close>, \<^verbatim>\<open>begin_\<close>, ... of the classes become record fields;
  a prefix keeps the fields of different classes apart.
\<close>

record Point =
  pt_x :: int32
  pt_y :: int32

record Vector =
  vec_x :: int32
  vec_y :: int32

record Segment =
  seg_begin :: Point
  seg_end :: Point

record Ray =
  ray_begin :: Point
  ray_direction :: Vector

record Line =
  line_a :: int32
  line_b :: int32
  line_c :: int32

record Circle =
  center :: Point
  radius :: int32

text \<open>
  A polygon keeps its own count \<^verbatim>\<open>size_\<close> beside the vector \<^verbatim>\<open>points_\<close>; the two-argument
  constructor does not force them to agree. The count is a \<^verbatim>\<open>size_t\<close>; indices stay
  below it, so it is modelled as a natural number.
\<close>

record Polygon =
  poly_size :: nat
  poly_points :: "Point list"

section \<open>Vector and Point\<close>

definition mkPoint :: "int32 \<Rightarrow> int32 \<Rightarrow> Point" where
  "mkPoint x y = \<lparr>pt_x = x, pt_y = y\<rparr>"

definition mkVector :: "int32 \<Rightarrow> int32 \<Rightarrow> Vector" where
  "mkVector x y = \<lparr>vec_x = x, vec_y = y\<rparr>"

definition mkSegment :: "Point \<Rightarrow> Point \<Rightarrow> Segment" where
  "mkSegment b e = \<lparr>seg_begin = mkPoint (pt_x b) (pt_y b), seg_end = mkPoint (pt_x e) (pt_y e)\<rparr>"

text \<open>\<^verbatim>\<open>Vector(const Point&)\<close>\<close>

definition Vector_of_Point :: "Point \<Rightarrow> Vector" where
  "Vector_of_Point p = mkVector (pt_x p) (pt_y p)"

text \<open>\<^verbatim>\<open>Vector(const Point& begin, const Point& end)\<close>\<close>

definition Vector_from_to :: "Point \<Rightarrow> Point \<Rightarrow> Vector" where
  "Vector_from_to b e = mkVector (pt_x e - pt_x b) (pt_y e - pt_y b)"

text \<open>\<^verbatim>\<open>Vector::operator*\<close>, the dot product, computed and returned as \<^verbatim>\<open>int\<close>.\<close>

definition Vector_dot :: "Vector \<Rightarrow> Vector \<Rightarrow> int32" where
  "Vector_dot v w = vec_x v * vec_x w + vec_y v * vec_y w"

text \<open>\<^verbatim>\<open>Vector::operator^\<close>, the cross product, computed and returned as \<^verbatim>\<open>int\<close>.\<close>

definition Vector_cross :: "Vector \<Rightarrow> Vector \<Rightarrow> int32" where
  "Vector_cross v w = vec_x v * vec_y w - vec_y v * vec_x w"

text \<open>\<^verbatim>\<open>Vector::operator-()\<close>: the vector with both components negated.\<close>

definition Vector_neg :: "Vector \<Rightarrow> Vector" where
  "Vector_neg v = mkVector (- vec_x v) (- vec_y v)"

text \<open>\<^verbatim>\<open>Point::operator-\<close> and \<^verbatim>\<open>Point::operator+\<close>\<close>

definition Point_minus :: "Point \<Rightarrow> Point \<Rightarrow> Point" where
  "Point_minus p q = mkPoint (pt_x p - pt_x q) (pt_y p - pt_y q)"

definition Point_plus :: "Point \<Rightarrow> Point \<Rightarrow> Point" where
  "Point_plus p q = mkPoint (pt_x p + pt_x q) (pt_y p + pt_y q)"

definition Move_Point :: "Vector \<Rightarrow> Point \<Rightarrow> Point" where
  "Move_Point v p = p\<lparr>pt_x := pt_x p + vec_x v, pt_y := pt_y p + vec_y v\<rparr>"

definition ContainsPoint_Point :: "Point \<Rightarrow> Point \<Rightarrow> bool" where
  "ContainsPoint_Point this p \<longleftrightarrow> pt_x this = pt_x p \<and> pt_y this = pt_y p"

section \<open>Line\<close>

text \<open>\<^verbatim>\<open>Line(const Point& begin, const Point& end)\<close>\<close>

definition Line_of_points :: "Point \<Rightarrow> Point \<Rightarrow> Line" where
  "Line_of_points b e =
     (let x1 = pt_x b; y1 = pt_y b; x2 = pt_x e; y2 = pt_y e
      in \<lparr>line_a = y2 - y1, line_b = x1 - x2, line_c = x2 * y1 - x1 * y2\<rparr>)"

text \<open>\<^verbatim>\<open>Line(const Ray& ray)\<close>\<close>

definition Line_of_Ray :: "Ray \<Rightarrow> Line" where
  "Line_of_Ray r =
     (let a = vec_y (ray_direction r); b = - vec_x (ray_direction r)
      in \<lparr>line_a = a, line_b = b,
          line_c = - a * pt_x (ray_begin r) - b * pt_y (ray_begin r)\<rparr>)"

text \<open>
  \<^verbatim>\<open>Line::PutPointIntoEquation\<close> returns \<^verbatim>\<open>long long\<close>, but its operands are all \<^verbatim>\<open>int\<close>:
  the sum of products is computed in 32 bits and only the result is widened.
\<close>

definition PutPointIntoEquation :: "Line \<Rightarrow> Point \<Rightarrow> int64" where
  "PutPointIntoEquation l p = widen (line_a l * pt_x p + line_b l * pt_y p + line_c l)"

definition IsParalel :: "Line \<Rightarrow> Line \<Rightarrow> bool" where
  "IsParalel this l \<longleftrightarrow> line_a this * line_b l = line_b this * line_a l"

definition IsSame :: "Line \<Rightarrow> Line \<Rightarrow> bool" where
  "IsSame this l \<longleftrightarrow> IsParalel this l \<and> line_c this * line_b l = line_b this * line_c l"

definition IsDistanceEqualRadius :: "Line \<Rightarrow> Line \<Rightarrow> int32 \<Rightarrow> bool" where
  "IsDistanceEqualRadius this l r =
     (if r = 0 then False
      else sint ((line_c this - line_c l) * (line_c this - line_c l))
           \<le> sint (r * r * (line_a this * line_a this + line_b this * line_b this)))"

definition ContainsPoint_Line :: "Line \<Rightarrow> Point \<Rightarrow> bool" where
  "ContainsPoint_Line l p \<longleftrightarrow> line_a l * pt_x p + line_b l * pt_y p + line_c l = 0"

text \<open>\<^verbatim>\<open>Line::CrossesSegment\<close>: the product of the two widened values is a 64-bit product.\<close>

definition CrossesSegment_Line :: "Line \<Rightarrow> Segment \<Rightarrow> bool" where
  "CrossesSegment_Line l s \<longleftrightarrow>
     sint (PutPointIntoEquation l (seg_begin s) * PutPointIntoEquation l (seg_end s)) \<le> 0"

definition Move_Line :: "Vector \<Rightarrow> Line \<Rightarrow> Line" where
  "Move_Line v l = l\<lparr>line_c := line_c l - (line_a l * vec_x v + line_b l * vec_y v)\<rparr>"

section \<open>Segment\<close>

definition Move_Segment :: "Vector \<Rightarrow> Segment \<Rightarrow> Segment" where
  "Move_Segment v s =
     s\<lparr>seg_begin := Move_Point v (seg_begin s), seg_end := Move_Point v (seg_end s)\<rparr>"

definition ContainsPoint_Segment :: "Segment \<Rightarrow> Point \<Rightarrow> bool" where
  "ContainsPoint_Segment this p =
     (let v1 = Vector_of_Point (Point_minus p (seg_begin this));
          v2 = Vector_of_Point (Point_minus p (seg_end this))
      in Vector_cross v1 v2 = 0 \<and> sint (Vector_dot v1 v2) \<le> 0)"

text \<open>
  \<^verbatim>\<open>Segment::CrossesSegment\<close>. The inner test of the source reads
  \<^verbatim>\<open>!ContainsPoint(segment.GetBegin()) && !ContainsPoint(segment.GetBegin())\<close>: both
  conjuncts ask about the begin point, and the model keeps them as written.
\<close>

definition CrossesSegment_Segment :: "Segment \<Rightarrow> Segment \<Rightarrow> bool" where
  "CrossesSegment_Segment this s =
     (let ab_line = Line_of_points (seg_begin this) (seg_end this);
          cd_line = Line_of_points (seg_begin s) (seg_end s)
      in if CrossesSegment_Line ab_line s \<and> CrossesSegment_Line cd_line this then
           if \<not> ContainsPoint_Segment this (seg_begin s) \<and>
              \<not> ContainsPoint_Segment this (seg_begin s)
           then
             (let v1 = Vector_from_to (seg_begin this) (seg_begin s);
                  v2 = Vector_from_to (seg_end this) (seg_end s)
              in sint (Vector_dot v1 v2) \<le> 0)
           else True
         else False)"

text \<open>\<^verbatim>\<open>Point::CrossesSegment\<close> asks the segment.\<close>

definition CrossesSegment_Point :: "Point \<Rightarrow> Segment \<Rightarrow> bool" where
  "CrossesSegment_Point this s = ContainsPoint_Segment s this"

section \<open>Ray\<close>

definition Move_Ray :: "Vector \<Rightarrow> Ray \<Rightarrow> Ray" where
  "Move_Ray v r =
     r\<lparr>ray_begin := mkPoint (vec_x v + pt_x (ray_begin r)) (vec_y v + pt_y (ray_begin r))\<rparr>"

definition ContainsPoint_Ray :: "Ray \<Rightarrow> Point \<Rightarrow> bool" where
  "ContainsPoint_Ray this p =
     (let line = Line_of_Ray this
      in if ContainsPoint_Line line p then
           (let r0 = Vector_of_Point (Point_minus p (ray_begin this))
            in if 0 \<le> sint (Vector_dot r0 (ray_direction this)) then True else False)
         else False)"

text \<open>
  \<^verbatim>\<open>CalculateDeterminant\<close> returns \<^verbatim>\<open>long long\<close>; the cross product inside it is the
  \<^verbatim>\<open>int\<close> one of \<^verbatim>\<open>Vector::operator^\<close>.
\<close>

definition CalculateDeterminant :: "Point \<Rightarrow> Point \<Rightarrow> int64" where
  "CalculateDeterminant point1 point2 =
     widen (Vector_cross (Vector_of_Point point1) (Vector_of_Point point2))"

text \<open>The three determinants of \<^verbatim>\<open>Ray::CrossesSegment\<close>, from \<^verbatim>\<open>GetABC()\<close> of both lines.\<close>

definition x_numerator :: "Line \<Rightarrow> Line \<Rightarrow> int64" where
  "x_numerator line1 line2 =
     CalculateDeterminant (mkPoint (line_c line1) (line_b line1))
                          (mkPoint (line_c line2) (line_b line2))"

definition y_numerator :: "Line \<Rightarrow> Line \<Rightarrow> int64" where
  "y_numerator line1 line2 =
     CalculateDeterminant (mkPoint (line_a line1) (line_c line1))
                          (mkPoint (line_a line2) (line_c line2))"

definition denominator :: "Line \<Rightarrow> Line \<Rightarrow> int64" where
  "denominator line1 line2 =
     - CalculateDeterminant (mkPoint (line_a line1) (line_b line1))
                            (mkPoint (line_a line2) (line_b line2))"

definition CrossesSegment_Ray :: "Ray \<Rightarrow> Segment \<Rightarrow> bool" where
  "CrossesSegment_Ray this s =
     (let line1 = Line_of_Ray this;
          line2 = Line_of_points (seg_begin s) (seg_end s)
      in if CrossesSegment_Line line1 s then
           if IsSame line1 line2 then
             ContainsPoint_Ray this (seg_begin s) \<or> ContainsPoint_Ray this (seg_end s)
           else
             (let x_num = x_numerator line1 line2;
                  y_num = y_numerator line1 line2;
                  den = denominator line1 line2;
                  x_intersect = (if den \<noteq> 0 then narrow (sdiv64 x_num den) else 0);
                  y_intersect = (if den \<noteq> 0 then narrow (sdiv64 y_num den) else 0);
                  intersect_point = mkVector (x_intersect - pt_x (ray_begin this))
                                             (y_intersect - pt_y (ray_begin this))
              in if 0 \<le> sint (Vector_dot intersect_point (ray_direction this))
                 then True else False)
         else False)"

section \<open>Circle\<close>

definition Move_Circle :: "Vector \<Rightarrow> Circle \<Rightarrow> Circle" where
  "Move_Circle v c =
     c\<lparr>center := mkPoint (vec_x v + pt_x (center c)) (vec_y v + pt_y (center c))\<rparr>"

definition ContainsPoint_Circle :: "Circle \<Rightarrow> Point \<Rightarrow> bool" where
  "ContainsPoint_Circle this p =
     (let len = Point_minus p (center this)
      in sint (pt_x len * pt_x len + pt_y len * pt_y len) \<le> sint (radius this * radius this))"

definition ContainsPointInPerimetr :: "Circle \<Rightarrow> Point \<Rightarrow> bool" where
  "ContainsPointInPerimetr this p =
     (let len = Point_minus p (center this)
      in pt_x len * pt_x len + pt_y len * pt_y len = radius this * radius this)"

definition CrossesSegment_Circle :: "Circle \<Rightarrow> Segment \<Rightarrow> bool" where
  "CrossesSegment_Circle this s =
     (if ContainsPointInPerimetr this (seg_begin s) \<or> ContainsPointInPerimetr this (seg_end s)
      then True
      else if (ContainsPoint_Circle this (seg_begin s) \<and> \<not> ContainsPoint_Circle this (seg_end s)) \<or>
              (ContainsPoint_Circle this (seg_end s) \<and> \<not> ContainsPoint_Circle this (seg_begin s))
      then True
      else if \<not> ContainsPoint_Circle this (seg_begin s) \<and> \<not> ContainsPoint_Circle this (seg_end s)
      then
        (let circle_line = Line_of_points (center this)
                             (Point_plus (center this) (Point_minus (seg_end s) (seg_begin s)));
             seg_line = Line_of_points (seg_begin s) (seg_end s)
         in if IsSame circle_line seg_line then
              (let v1 = Vector_of_Point (Point_minus (seg_begin s) (center this));
                   v2 = Vector_of_Point (Point_minus (seg_end s) (center this))
               in sint (Vector_dot v1 v2) < 0)
            else if IsDistanceEqualRadius circle_line seg_line (radius this) then True
            else False)
      else False)"

section \<open>Polygon\<close>

text \<open>
  The loops of the polygon run \<^verbatim>\<open>i\<close> from 0 below \<^verbatim>\<open>size_\<close> and index \<^verbatim>\<open>points_\<close> with it.
  Reading or writing \<^verbatim>\<open>points_[i]\<close> beyond the vector has no defined behaviour in the
  source; the model returns \<open>None\<close> there.
\<close>

function Move_Polygon_loop :: "Vector \<Rightarrow> nat \<Rightarrow> Polygon \<Rightarrow> Polygon option" where
  "Move_Polygon_loop v i P =
     (if i < poly_size P then
        (if i < length (poly_points P) then
           Move_Polygon_loop v (Suc i)
             (P\<lparr>poly_points := (poly_points P)
                  [i := mkPoint (vec_x v + pt_x (poly_points P ! i))
                                (vec_y v + pt_y (poly_points P ! i))]\<rparr>)
         else None)
      else Some P)"
  by pat_completeness auto
termination
  by (relation "measure (\<lambda>(v, i, P). poly_size P - i)") auto

definition Move_Polygon :: "Vector \<Rightarrow> Polygon \<Rightarrow> Polygon option" where
  "Move_Polygon v P = Move_Polygon_loop v 0 P"

text \<open>
  The edge that starts at vertex \<^verbatim>\<open>i\<close>: to the next vertex, or from the last vertex back
  to the first (\<^verbatim>\<open>SetSegment\<close> in both loops below). The loops ask for it only with
  \<^verbatim>\<open>i < size_\<close>, where the unsigned \<^verbatim>\<open>size_ - 1\<close> does not wrap.
\<close>

definition Polygon_edge :: "Polygon \<Rightarrow> nat \<Rightarrow> Segment option" where
  "Polygon_edge P i =
     (let pts = poly_points P
      in if i \<noteq> poly_size P - 1 then
           (if Suc i < length pts then Some (mkSegment (pts ! i) (pts ! Suc i)) else None)
         else
           (if i < length pts then Some (mkSegment (pts ! i) (pts ! 0)) else None))"

function ContainsPointWithDirection_loop ::
  "Polygon \<Rightarrow> Ray \<Rightarrow> nat \<Rightarrow> int32 \<Rightarrow> bool option" where
  "ContainsPointWithDirection_loop P ray i n_intersections =
     (if i < poly_size P then
        (case Polygon_edge P i of
           None \<Rightarrow> None
         | Some seg \<Rightarrow>
             if ContainsPoint_Segment seg (ray_begin ray) then Some True
             else ContainsPointWithDirection_loop P ray (Suc i)
                    (n_intersections + (if CrossesSegment_Ray ray seg then 1 else 0)))
      else Some (srem32 n_intersections 2 = 1))"
  by pat_completeness auto
termination
  by (relation "measure (\<lambda>(P, ray, i, n). poly_size P - i)") auto

definition ContainsPointWithDirection :: "Polygon \<Rightarrow> Point \<Rightarrow> Vector \<Rightarrow> bool option" where
  "ContainsPointWithDirection P point direction =
     ContainsPointWithDirection_loop P \<lparr>ray_begin = point, ray_direction = direction\<rparr> 0 0"

text \<open>\<^verbatim>\<open>||\<close> evaluates its second operand only when the first is false.\<close>

definition ContainsPoint_Polygon :: "Polygon \<Rightarrow> Point \<Rightarrow> bool option" where
  "ContainsPoint_Polygon P point =
     (let direction1 = mkVector 13 2; direction2 = mkVector 1 0
      in case ContainsPointWithDirection P point direction2 of
           None \<Rightarrow> None
         | Some True \<Rightarrow> Some True
         | Some False \<Rightarrow> ContainsPointWithDirection P point direction1)"

function CrossesSegment_Polygon_loop :: "Polygon \<Rightarrow> Segment \<Rightarrow> nat \<Rightarrow> bool option" where
  "CrossesSegment_Polygon_loop P s i =
     (if i < poly_size P then
        (case Polygon_edge P i of
           None \<Rightarrow> None
         | Some side \<Rightarrow>
             if CrossesSegment_Segment side s then Some True
             else CrossesSegment_Polygon_loop P s (Suc i))
      else Some False)"
  by pat_completeness auto
termination
  by (relation "measure (\<lambda>(P, s, i). poly_size P - i)") auto

definition CrossesSegment_Polygon :: "Polygon \<Rightarrow> Segment \<Rightarrow> bool option" where
  "CrossesSegment_Polygon P s = CrossesSegment_Polygon_loop P s 0"

section \<open>The shape abstraction\<close>

text \<open>
  \<^verbatim>\<open>IShape\<close> with its six implementations is a datatype with one constructor per class;
  the virtual \<^verbatim>\<open>Move\<close> dispatches on it.
\<close>

datatype IShape =
    ShapePoint Point
  | ShapeSegment Segment
  | ShapeRay Ray
  | ShapeLine Line
  | ShapeCircle Circle
  | ShapePolygon Polygon

fun Move :: "Vector \<Rightarrow> IShape \<Rightarrow> IShape option" where
  "Move v (ShapePoint p) = Some (ShapePoint (Move_Point v p))"
| "Move v (ShapeSegment s) = Some (ShapeSegment (Move_Segment v s))"
| "Move v (ShapeRay r) = Some (ShapeRay (Move_Ray v r))"
| "Move v (ShapeLine l) = Some (ShapeLine (Move_Line v l))"
| "Move v (ShapeCircle c) = Some (ShapeCircle (Move_Circle v c))"
| "Move v (ShapePolygon P) = map_option ShapePolygon (Move_Polygon v P)"

section \<open>Reference notions in unbounded integers\<close>

text \<open>
  The geometric readings that the properties below compare the program with. They are
  stated over the mathematical integers \<open>sint\<close> reads from the coordinates, so nothing in
  them wraps around.
\<close>

definition PutPointIntoEquation_exact :: "Line \<Rightarrow> Point \<Rightarrow> int" where
  "PutPointIntoEquation_exact l p =
     sint (line_a l) * sint (pt_x p) + sint (line_b l) * sint (pt_y p) + sint (line_c l)"

text \<open>
  Two coefficient triples are proportional by a nonzero (rational) scalar: \<open>s / t\<close> with
  both integers nonzero.
\<close>

definition proportional :: "Line \<Rightarrow> Line \<Rightarrow> bool" where
  "proportional l1 l2 \<longleftrightarrow>
     (\<exists>s t :: int. s \<noteq> 0 \<and> t \<noteq> 0 \<and>
        s * sint (line_a l1) = t * sint (line_a l2) \<and>
        s * sint (line_b l1) = t * sint (line_b l2) \<and>
        s * sint (line_c l1) = t * sint (line_c l2))"

text \<open>
  \<open>r\<close> lies strictly between \<open>p\<close> and \<open>q\<close>: \<open>r = p + (m / n) (q - p)\<close> for a fraction
  strictly between 0 and 1.
\<close>

definition strictly_between :: "Point \<Rightarrow> Point \<Rightarrow> Point \<Rightarrow> bool" where
  "strictly_between p q r \<longleftrightarrow>
     (\<exists>m n :: int. 0 < m \<and> m < n \<and>
        n * (sint (pt_x r) - sint (pt_x p)) = m * (sint (pt_x q) - sint (pt_x p)) \<and>
        n * (sint (pt_y r) - sint (pt_y p)) = m * (sint (pt_y q) - sint (pt_y p)))"

text \<open>
  The exact cross and dot product of the vectors from the two endpoints of a segment to
  a point, which \<^verbatim>\<open>Segment::ContainsPoint\<close> computes in 32 bits.
\<close>

definition seg_cross :: "Segment \<Rightarrow> Point \<Rightarrow> int" where
  "seg_cross s r =
     (sint (pt_x r) - sint (pt_x (seg_begin s))) * (sint (pt_y r) - sint (pt_y (seg_end s)))
   - (sint (pt_y r) - sint (pt_y (seg_begin s))) * (sint (pt_x r) - sint (pt_x (seg_end s)))"

definition seg_dot :: "Segment \<Rightarrow> Point \<Rightarrow> int" where
  "seg_dot s r =
     (sint (pt_x r) - sint (pt_x (seg_begin s))) * (sint (pt_x r) - sint (pt_x (seg_end s)))
   + (sint (pt_y r) - sint (pt_y (seg_begin s))) * (sint (pt_y r) - sint (pt_y (seg_end s)))"

text \<open>A value that a 32-bit \<^verbatim>\<open>int\<close> holds without wrapping.\<close>

definition fits32 :: "int \<Rightarrow> bool" where
  "fits32 k \<longleftrightarrow> - (2 ^ 31) \<le> k \<and> k < 2 ^ 31"

text \<open>
  The supporting line of a segment, with exact coefficients
  \<open>a = y\<^sub>2 - y\<^sub>1\<close>, \<open>b = x\<^sub>1 - x\<^sub>2\<close>, \<open>c = x\<^sub>2 y\<^sub>1 - x\<^sub>1 y\<^sub>2\<close>, its value at a point, and the
  perpendicular distance of a point from it, \<open>|a x + b y + c| / sqrt (a\<^sup>2 + b\<^sup>2)\<close>.
\<close>

definition seg_a :: "Segment \<Rightarrow> int" where
  "seg_a s = sint (pt_y (seg_end s)) - sint (pt_y (seg_begin s))"

definition seg_b :: "Segment \<Rightarrow> int" where
  "seg_b s = sint (pt_x (seg_begin s)) - sint (pt_x (seg_end s))"

definition seg_c :: "Segment \<Rightarrow> int" where
  "seg_c s = sint (pt_x (seg_end s)) * sint (pt_y (seg_begin s))
           - sint (pt_x (seg_begin s)) * sint (pt_y (seg_end s))"

definition seg_value :: "Segment \<Rightarrow> Point \<Rightarrow> int" where
  "seg_value s p = seg_a s * sint (pt_x p) + seg_b s * sint (pt_y p) + seg_c s"

definition perp_dist :: "Point \<Rightarrow> Segment \<Rightarrow> real" where
  "perp_dist p s =
     \<bar>real_of_int (seg_value s p)\<bar> / sqrt (real_of_int ((seg_a s)\<^sup>2 + (seg_b s)\<^sup>2))"

text \<open>Coordinates and radius small enough for the circle's distance test not to wrap.\<close>

definition small_coordinates :: "Circle \<Rightarrow> Segment \<Rightarrow> bool" where
  "small_coordinates C s \<longleftrightarrow>
     \<bar>sint (pt_x (center C))\<bar> \<le> 87 \<and> \<bar>sint (pt_y (center C))\<bar> \<le> 87 \<and>
     \<bar>sint (pt_x (seg_begin s))\<bar> \<le> 87 \<and> \<bar>sint (pt_y (seg_begin s))\<bar> \<le> 87 \<and>
     \<bar>sint (pt_x (seg_end s))\<bar> \<le> 87 \<and> \<bar>sint (pt_y (seg_end s))\<bar> \<le> 87 \<and>
     0 \<le> sint (radius C) \<and> sint (radius C) \<le> 87"

text \<open>
  A shape whose \<^verbatim>\<open>Move\<close> stays inside its own storage: a polygon's count does not exceed
  its vector of points. The one-argument constructor and the default constructor
  establish this.
\<close>

fun well_formed :: "IShape \<Rightarrow> bool" where
  "well_formed (ShapePolygon P) \<longleftrightarrow> poly_size P \<le> length (poly_points P)"
| "well_formed _ \<longleftrightarrow> True"

text \<open>The point that \<^verbatim>\<open>Polygon::Move\<close> writes back for a vertex.\<close>

definition moved :: "Vector \<Rightarrow> Point \<Rightarrow> Point" where
  "moved v p = mkPoint (vec_x v + pt_x p) (vec_y v + pt_y p)"

section \<open>Facts about the machine arithmetic\<close>

lemma sint_widen: "sint (widen w) = sint w"
  unfolding widen_def by (rule sint_up_scast) (simp add: is_up)

lemma widen_eq_0: "widen w = 0 \<longleftrightarrow> w = 0"
proof
  assume "widen w = 0"
  then have "sint (widen w) = 0" by simp
  then have "sint w = 0" by (simp add: sint_widen)
  then show "w = 0" by (simp add: signed_eq_0_iff)
next
  assume "w = 0" then show "widen w = 0" by (simp add: widen_def)
qed

lemma sint32_range: "- (2 ^ 31) \<le> sint (w :: int32) \<and> sint w < 2 ^ 31"
  using sint_ge [of w] sint_lt [of w] by simp

text \<open>The product of two widened 32-bit values never overflows 64 bits.\<close>

lemma sint_widen_mult: "sint (widen v * widen w) = sint v * sint w"
proof -
  have v: "- (2 ^ 31) \<le> sint v \<and> sint v < 2 ^ 31" by (rule sint32_range)
  have w: "- (2 ^ 31) \<le> sint w \<and> sint w < 2 ^ 31" by (rule sint32_range)
  have "\<bar>sint v * sint w\<bar> \<le> 2 ^ 31 * 2 ^ 31"
    unfolding abs_mult using v w by (intro mult_mono) auto
  then have b: "- (2 ^ 63) \<le> sint v * sint w \<and> sint v * sint w < 2 ^ 63" by auto
  have "sint (widen v * widen w) = signed_take_bit 63 (sint (widen v) * sint (widen w))"
    by (simp add: sint_word_ariths)
  also have "\<dots> = sint v * sint w"
    using b by (simp add: sint_widen signed_take_bit_int_eq_self)
  finally show ?thesis .
qed

lemma widen_square_le_0: "sint (widen w * widen w) \<le> 0 \<longleftrightarrow> w = 0"
proof -
  have "sint w * sint w \<le> 0 \<longleftrightarrow> sint w = 0"
    by (metis order_refl zero_le_square antisym mult_eq_0_iff)
  then show ?thesis by (simp add: sint_widen_mult signed_eq_0_iff)
qed

text \<open>
  Word arithmetic is arithmetic modulo \<open>2 ^ 32\<close>: a word expression is the image of the
  exact integer expression, and reading it back gives the exact value when that fits.
\<close>

lemma sint_word_of_int_fits: "fits32 k \<Longrightarrow> sint (word_of_int k :: int32) = k"
  by (simp add: fits32_def sint_sbintrunc' signed_take_bit_int_eq_self)

lemma word_of_int_eq_0_fits:
  assumes "fits32 k"
  shows "(word_of_int k :: int32) = 0 \<longleftrightarrow> k = 0"
proof
  assume "(word_of_int k :: int32) = 0"
  then have "sint (word_of_int k :: int32) = 0" by simp
  with assms show "k = 0" by (simp add: sint_word_of_int_fits)
qed simp

lemma fits32_nonneg: "0 \<le> k \<Longrightarrow> k \<le> 2147483647 \<Longrightarrow> fits32 k"
  by (simp add: fits32_def)

lemma abs_mult_le:
  fixes x y a b :: int
  assumes "\<bar>x\<bar> \<le> a" "\<bar>y\<bar> \<le> b"
  shows "\<bar>x * y\<bar> \<le> a * b"
  unfolding abs_mult using assms by (intro mult_mono) auto

lemma Point_eq_iff:
  fixes p q :: Point
  shows "p = q \<longleftrightarrow> sint (pt_x p) = sint (pt_x q) \<and> sint (pt_y p) = sint (pt_y q)"
  by (cases p, cases q) (auto intro: signed_word_eqI)

lemmas geom_defs =
  mkPoint_def mkVector_def mkSegment_def Vector_of_Point_def Vector_from_to_def
  Vector_dot_def Vector_cross_def Point_minus_def Point_plus_def Line_of_points_def
  Line_of_Ray_def PutPointIntoEquation_def CrossesSegment_Line_def
  ContainsPoint_Segment_def CrossesSegment_Segment_def widen_def IsSame_def IsParalel_def
  ContainsPoint_Line_def

section \<open>Segment against segment\<close>

text \<open>The begin point of the other segment is looked at: a touch there is a crossing.\<close>

lemma CrossesSegment_Segment_begin_touch:
  assumes "CrossesSegment_Line (Line_of_points (seg_begin s1) (seg_end s1)) s2"
    and "CrossesSegment_Line (Line_of_points (seg_begin s2) (seg_end s2)) s1"
    and "ContainsPoint_Segment s1 (seg_begin s2)"
  shows "CrossesSegment_Segment s1 s2"
  using assms by (simp add: CrossesSegment_Segment_def Let_def)

text \<open>
  C1. When both line-sign tests pass and an endpoint of \<open>s2\<close> lies on \<open>s1\<close>, crossing is
  to be reported unconditionally. The program checks only the begin point of \<open>s2\<close>
  (twice): for \<open>s1\<close> from \<open>(0, 0)\<close> to \<open>(4, 0)\<close> and \<open>s2\<close> from \<open>(-1, 1)\<close> to \<open>(2, 0)\<close> both
  sign tests pass and the end point \<open>(2, 0)\<close> of \<open>s2\<close> lies on \<open>s1\<close>, yet the dot-product
  test is applied and the result is \<open>False\<close>.
\<close>

theorem CrossesSegment_Segment_misses_end_touch:
  "CrossesSegment_Line (Line_of_points (mkPoint 0 0) (mkPoint 4 0))
     (mkSegment (mkPoint (- 1) 1) (mkPoint 2 0)) \<and>
   CrossesSegment_Line (Line_of_points (mkPoint (- 1) 1) (mkPoint 2 0))
     (mkSegment (mkPoint 0 0) (mkPoint 4 0)) \<and>
   ContainsPoint_Segment (mkSegment (mkPoint 0 0) (mkPoint 4 0)) (mkPoint 2 0) \<and>
   CrossesSegment_Segment (mkSegment (mkPoint 0 0) (mkPoint 4 0))
     (mkSegment (mkPoint (- 1) 1) (mkPoint 2 0)) = False"
  by (simp add: geom_defs Let_def)

section \<open>Line equality\<close>

text \<open>
  One direction holds for all inputs: proportional triples pass \<open>IsSame\<close>, since an
  equation between exact products survives reduction modulo \<open>2 ^ 32\<close>.
\<close>

lemma proportional_imp_IsSame:
  assumes "proportional l1 l2"
  shows "IsSame l1 l2"
proof -
  from assms obtain s t :: int where st: "s \<noteq> 0" "t \<noteq> 0"
    and a: "s * sint (line_a l1) = t * sint (line_a l2)"
    and b: "s * sint (line_b l1) = t * sint (line_b l2)"
    and c: "s * sint (line_c l1) = t * sint (line_c l2)"
    by (auto simp: proportional_def)
  have "(s * t) * (sint (line_a l1) * sint (line_b l2))
      = (s * sint (line_a l1)) * (t * sint (line_b l2))" by simp
  also have "\<dots> = (t * sint (line_a l2)) * (s * sint (line_b l1))"
    by (simp only: a b)
  also have "\<dots> = (s * t) * (sint (line_b l1) * sint (line_a l2))" by simp
  finally have 1: "sint (line_a l1) * sint (line_b l2) = sint (line_b l1) * sint (line_a l2)"
    using st by simp
  have "(s * t) * (sint (line_c l1) * sint (line_b l2))
      = (s * sint (line_c l1)) * (t * sint (line_b l2))" by simp
  also have "\<dots> = (t * sint (line_c l2)) * (s * sint (line_b l1))"
    by (simp only: c b)
  also have "\<dots> = (s * t) * (sint (line_b l1) * sint (line_c l2))" by simp
  finally have 2: "sint (line_c l1) * sint (line_b l2) = sint (line_b l1) * sint (line_c l2)"
    using st by simp
  have w: "x * y = x' * y'" if "sint x * sint y = sint x' * sint y'" for x y x' y' :: int32
  proof -
    have "x * y = word_of_int (sint x * sint y)" by simp
    also have "\<dots> = word_of_int (sint x' * sint y')" by (simp only: that)
    also have "\<dots> = x' * y'" by simp
    finally show ?thesis .
  qed
  show ?thesis
    unfolding IsSame_def IsParalel_def using w [OF 1] w [OF 2] by simp
qed

text \<open>
  C2. \<open>IsSame\<close> is to hold exactly for proportional coefficient triples. The program
  compares only the \<open>b\<close> and \<open>c\<close> coefficients after the parallel test, so two distinct
  vertical lines pass: the line through \<open>(0, 0)\<close> and \<open>(0, 1)\<close> is \<open>(1, 0, 0)\<close>, the line
  through \<open>(10, 0)\<close> and \<open>(10, 1)\<close> is \<open>(1, 0, -10)\<close>, \<open>IsSame\<close> holds of them, they are not
  proportional, and the origin lies on the first only.
\<close>

theorem IsSame_vertical_lines_not_proportional:
  "IsSame (Line_of_points (mkPoint 0 0) (mkPoint 0 1))
          (Line_of_points (mkPoint 10 0) (mkPoint 10 1)) \<and>
   \<not> proportional (Line_of_points (mkPoint 0 0) (mkPoint 0 1))
                   (Line_of_points (mkPoint 10 0) (mkPoint 10 1)) \<and>
   ContainsPoint_Line (Line_of_points (mkPoint 0 0) (mkPoint 0 1)) (mkPoint 0 0) \<and>
   \<not> ContainsPoint_Line (Line_of_points (mkPoint 10 0) (mkPoint 10 1)) (mkPoint 0 0)"
  by (simp add: geom_defs proportional_def Let_def)

section \<open>Width of the arithmetic\<close>

text \<open>The program's value of the line equation is the exact one whenever that fits 32 bits.\<close>

lemma PutPointIntoEquation_exact_fits:
  assumes "fits32 (PutPointIntoEquation_exact l p)"
  shows "sint (PutPointIntoEquation l p) = PutPointIntoEquation_exact l p"
proof -
  have "line_a l * pt_x p + line_b l * pt_y p + line_c l
      = word_of_int (PutPointIntoEquation_exact l p)"
    by (simp add: PutPointIntoEquation_exact_def)
  then show ?thesis
    using assms by (simp add: PutPointIntoEquation_def sint_widen sint_word_of_int_fits)
qed

text \<open>
  C4. Products and sums are to be computed in 64 bits, so that the predicates agree with
  exact integer arithmetic on all 32-bit inputs. The program multiplies and adds \<^verbatim>\<open>int\<close>
  operands and widens only the result. For the line through \<open>(0, 0)\<close> and \<open>(0, 65536)\<close>,
  which is \<open>(65536, 0, 0)\<close>, and the point \<open>(65536, 5)\<close> the exact value of the equation is
  \<open>2 ^ 32\<close>, the program's value is 0, and \<open>ContainsPoint\<close> answers \<open>True\<close> for a point off
  the line.
\<close>

theorem PutPointIntoEquation_wraps:
  "PutPointIntoEquation_exact (Line_of_points (mkPoint 0 0) (mkPoint 0 65536))
     (mkPoint 65536 5) = 2 ^ 32 \<and>
   sint (PutPointIntoEquation (Line_of_points (mkPoint 0 0) (mkPoint 0 65536))
     (mkPoint 65536 5)) = 0 \<and>
   ContainsPoint_Line (Line_of_points (mkPoint 0 0) (mkPoint 0 65536)) (mkPoint 65536 5)"
  by (simp add: geom_defs PutPointIntoEquation_exact_def Let_def)

section \<open>Point on a segment\<close>

text \<open>
  When the exact cross and dot product fit 32 bits, \<^verbatim>\<open>ContainsPoint\<close> tests exactly them.
\<close>

lemma ContainsPoint_Segment_exact:
  assumes "fits32 (seg_cross s r)" "fits32 (seg_dot s r)"
  shows "ContainsPoint_Segment s r \<longleftrightarrow> seg_cross s r = 0 \<and> seg_dot s r \<le> 0"
proof -
  let ?v1 = "Vector_of_Point (Point_minus r (seg_begin s))"
  let ?v2 = "Vector_of_Point (Point_minus r (seg_end s))"
  have c: "Vector_cross ?v1 ?v2 = word_of_int (seg_cross s r)"
    by (simp add: Vector_cross_def Vector_of_Point_def Point_minus_def mkVector_def mkPoint_def
        seg_cross_def)
  have d: "Vector_dot ?v1 ?v2 = word_of_int (seg_dot s r)"
    by (simp add: Vector_dot_def Vector_of_Point_def Point_minus_def mkVector_def mkPoint_def
        seg_dot_def)
  show ?thesis
    unfolding ContainsPoint_Segment_def Let_def c d
    using assms by (simp add: word_of_int_eq_0_fits sint_word_of_int_fits)
qed

text \<open>
  Two nonzero integer vectors \<open>u\<close> and \<open>w\<close> with zero cross product and nonpositive dot
  product point in opposite directions: \<open>n u = m (u - w)\<close> for \<open>m = u \<cdot> (u - w)\<close> and
  \<open>n = |u - w|\<^sup>2\<close>.
\<close>

lemma collinear_between:
  fixes ux uy wx wy :: int
  assumes cr: "ux * wy - uy * wx = 0" and dt: "ux * wx + uy * wy \<le> 0"
    and u: "ux \<noteq> 0 \<or> uy \<noteq> 0" and w: "wx \<noteq> 0 \<or> wy \<noteq> 0"
  shows "\<exists>m n. 0 < m \<and> m < n \<and> n * ux = m * (ux - wx) \<and> n * uy = m * (uy - wy)"
proof -
  define uu ww uw where "uu = ux * ux + uy * uy" and "ww = wx * wx + wy * wy"
    and "uw = ux * wx + uy * wy"
  let ?m = "uu - uw" and ?n = "uu - 2 * uw + ww"
  have uu: "0 < uu"
    unfolding uu_def using u by (simp add: sum_power2_gt_zero_iff flip: power2_eq_square)
  have ww: "0 < ww"
    unfolding ww_def using w by (simp add: sum_power2_gt_zero_iff flip: power2_eq_square)
  have dt': "uw \<le> 0" using dt by (simp add: uw_def)
  have m: "0 < ?m" using uu dt' by linarith
  have mn: "?m < ?n" using ww dt' by linarith
  have x: "?n * ux - ?m * (ux - wx) = (wy - uy) * (ux * wy - uy * wx)"
    by (simp add: uu_def ww_def uw_def algebra_simps)
  have y: "?n * uy - ?m * (uy - wy) = (ux - wx) * (ux * wy - uy * wx)"
    by (simp add: uu_def ww_def uw_def algebra_simps)
  from x y cr have "?n * ux = ?m * (ux - wx)" "?n * uy = ?m * (uy - wy)" by simp_all
  with m mn show ?thesis by blast
qed

lemma between_collinear:
  fixes ux uy wx wy m n :: int
  assumes "0 < m" "m < n" "n * ux = m * (ux - wx)" "n * uy = m * (uy - wy)"
  shows "ux * wy - uy * wx = 0 \<and> ux * wx + uy * wy \<le> 0"
proof -
  let ?k = "n - m"
  have k: "0 < ?k" using assms by simp
  have x: "?k * ux = - (m * wx)" and y: "?k * uy = - (m * wy)"
    using assms(3,4) by (simp_all add: algebra_simps)
  have "?k * (ux * wy - uy * wx) = (?k * ux) * wy - (?k * uy) * wx"
    by (simp add: algebra_simps)
  also have "\<dots> = 0" unfolding x y by simp
  finally have c: "ux * wy - uy * wx = 0" using k by simp
  have "?k * (ux * wx + uy * wy) = (?k * ux) * wx + (?k * uy) * wy"
    by (simp add: algebra_simps)
  also have "\<dots> = - (m * (wx * wx + wy * wy))" unfolding x y by (simp add: algebra_simps)
  also have "\<dots> \<le> 0" using assms(1) by simp
  finally have "?k * (ux * wx + uy * wy) \<le> 0" .
  with k have "ux * wx + uy * wy \<le> 0"
    by (simp add: mult_le_0_iff)
  with c show ?thesis by simp
qed

text \<open>
  So the exact test describes the closed segment: the two endpoints and the points
  strictly between them.
\<close>

lemma seg_cross_dot_geometry:
  "seg_cross s r = 0 \<and> seg_dot s r \<le> 0 \<longleftrightarrow>
     r = seg_begin s \<or> r = seg_end s \<or> strictly_between (seg_begin s) (seg_end s) r"
proof -
  define ux uy wx wy where "ux = sint (pt_x r) - sint (pt_x (seg_begin s))"
    and "uy = sint (pt_y r) - sint (pt_y (seg_begin s))"
    and "wx = sint (pt_x r) - sint (pt_x (seg_end s))"
    and "wy = sint (pt_y r) - sint (pt_y (seg_end s))"
  have cd: "seg_cross s r = ux * wy - uy * wx" "seg_dot s r = ux * wx + uy * wy"
    by (simp_all add: seg_cross_def seg_dot_def ux_def uy_def wx_def wy_def)
  have b: "r = seg_begin s \<longleftrightarrow> ux = 0 \<and> uy = 0"
    by (simp add: Point_eq_iff ux_def uy_def)
  have e: "r = seg_end s \<longleftrightarrow> wx = 0 \<and> wy = 0"
    by (simp add: Point_eq_iff wx_def wy_def)
  have d: "sint (pt_x (seg_end s)) - sint (pt_x (seg_begin s)) = ux - wx"
    "sint (pt_y (seg_end s)) - sint (pt_y (seg_begin s)) = uy - wy"
    by (simp_all add: ux_def uy_def wx_def wy_def)
  have sb: "strictly_between (seg_begin s) (seg_end s) r \<longleftrightarrow>
      (\<exists>m n. 0 < m \<and> m < n \<and> n * ux = m * (ux - wx) \<and> n * uy = m * (uy - wy))"
    unfolding strictly_between_def d by (simp add: ux_def uy_def)
  show ?thesis
  proof
    assume h: "seg_cross s r = 0 \<and> seg_dot s r \<le> 0"
    show "r = seg_begin s \<or> r = seg_end s \<or> strictly_between (seg_begin s) (seg_end s) r"
    proof (cases "(ux \<noteq> 0 \<or> uy \<noteq> 0) \<and> (wx \<noteq> 0 \<or> wy \<noteq> 0)")
      case True
      with h have "\<exists>m n. 0 < m \<and> m < n \<and> n * ux = m * (ux - wx) \<and> n * uy = m * (uy - wy)"
        unfolding cd by (intro collinear_between) simp_all
      then show ?thesis by (simp add: sb)
    next
      case False
      then show ?thesis using b e by auto
    qed
  next
    assume "r = seg_begin s \<or> r = seg_end s \<or> strictly_between (seg_begin s) (seg_end s) r"
    then consider "ux = 0 \<and> uy = 0" | "wx = 0 \<and> wy = 0"
      | m n where "0 < m" "m < n" "n * ux = m * (ux - wx)" "n * uy = m * (uy - wy)"
      using b e sb by auto
    then show "seg_cross s r = 0 \<and> seg_dot s r \<le> 0"
    proof cases
      case 1 then show ?thesis by (simp add: cd)
    next
      case 2 then show ?thesis by (simp add: cd)
    next
      case 3 then show ?thesis unfolding cd by (rule between_collinear)
    qed
  qed
qed

text \<open>
  Within that range the program's answer is the geometric one: the point is an
  endpoint or strictly between the endpoints.
\<close>

lemma ContainsPoint_Segment_geometry:
  assumes "fits32 (seg_cross s r)" "fits32 (seg_dot s r)"
  shows "ContainsPoint_Segment s r \<longleftrightarrow>
     r = seg_begin s \<or> r = seg_end s \<or> strictly_between (seg_begin s) (seg_end s) r"
  using ContainsPoint_Segment_exact [OF assms] seg_cross_dot_geometry by simp

text \<open>An endpoint is contained whatever the coordinates: both products are 0.\<close>

lemma ContainsPoint_Segment_endpoints:
  "ContainsPoint_Segment s (seg_begin s)" "ContainsPoint_Segment s (seg_end s)"
  by (simp_all add: ContainsPoint_Segment_def Vector_cross_def Vector_dot_def
      Vector_of_Point_def Point_minus_def mkVector_def mkPoint_def Let_def)

text \<open>
  C7. A point strictly between the endpoints is to be contained. The dot product of
  \<open>ContainsPoint\<close> is a 32-bit product: for the segment from \<open>(-65536, 0)\<close> to \<open>(49152, 0)\<close>
  and the point \<open>(0, 0)\<close>, which is four sevenths of the way along, it is
  \<open>65536 * (-49152)\<close>, which wraps to \<open>2 ^ 30\<close>, and the answer is \<open>False\<close>.
\<close>

theorem ContainsPoint_Segment_wraps:
  "strictly_between (mkPoint (- 65536) 0) (mkPoint 49152 0) (mkPoint 0 0) \<and>
   sint (Vector_dot (Vector_of_Point (Point_minus (mkPoint 0 0) (mkPoint (- 65536) 0)))
                    (Vector_of_Point (Point_minus (mkPoint 0 0) (mkPoint 49152 0)))) = 2 ^ 30 \<and>
   ContainsPoint_Segment (mkSegment (mkPoint (- 65536) 0) (mkPoint 49152 0)) (mkPoint 0 0)
     = False"
proof -
  have "strictly_between (mkPoint (- 65536) 0) (mkPoint 49152 0) (mkPoint 0 0)"
    unfolding strictly_between_def
    by (rule exI [of _ 4], rule exI [of _ 7]) (simp add: mkPoint_def)
  then show ?thesis by (simp add: geom_defs Let_def)
qed

section \<open>Ray against segment\<close>

lemma denominator_eq_0: "denominator l1 l2 = 0 \<longleftrightarrow> IsParalel l1 l2"
  by (simp add: denominator_def CalculateDeterminant_def widen_eq_0 Vector_cross_def
      Vector_of_Point_def mkVector_def mkPoint_def IsParalel_def)

text \<open>A line parallel to the line through \<open>p\<close> and \<open>q\<close> takes the same value at both.\<close>

lemma parallel_same_value:
  assumes "IsParalel l (Line_of_points p q)"
  shows "PutPointIntoEquation l q = PutPointIntoEquation l p"
proof -
  from assms have h: "line_a l * (pt_x p - pt_x q) = line_b l * (pt_y q - pt_y p)"
    by (simp add: IsParalel_def Line_of_points_def Let_def)
  have "line_a l * pt_x q + line_b l * pt_y q + line_c l
      = line_a l * pt_x p + line_b l * pt_y p + line_c l"
    using h by (simp add: algebra_simps)
  then show ?thesis by (simp add: PutPointIntoEquation_def)
qed

text \<open>
  Hence, if such a line passes the sign test on the segment, its value at both endpoints
  is 0, and the \<open>c\<close> coefficients are proportional as \<open>IsSame\<close> asks. All of this is ring
  arithmetic, valid modulo \<open>2 ^ 32\<close>.
\<close>

lemma parallel_crossing_is_same:
  assumes par: "IsParalel l (Line_of_points (seg_begin s) (seg_end s))"
    and cross: "CrossesSegment_Line l s"
  shows "IsSame l (Line_of_points (seg_begin s) (seg_end s))"
proof -
  let ?p = "seg_begin s" and ?q = "seg_end s"
  have "PutPointIntoEquation l ?q = PutPointIntoEquation l ?p"
    using par by (rule parallel_same_value)
  with cross have "line_a l * pt_x ?p + line_b l * pt_y ?p + line_c l = 0"
    by (simp add: CrossesSegment_Line_def PutPointIntoEquation_def widen_square_le_0)
  then have c: "line_c l = - (line_a l * pt_x ?p + line_b l * pt_y ?p)"
    by (simp add: add_eq_0_iff)
  from par have h: "line_a l * (pt_x ?p - pt_x ?q) = line_b l * (pt_y ?q - pt_y ?p)"
    by (simp add: IsParalel_def Line_of_points_def Let_def)
  have "line_c l * (pt_x ?p - pt_x ?q)
      = - (line_a l * (pt_x ?p - pt_x ?q)) * pt_x ?p - line_b l * pt_y ?p * (pt_x ?p - pt_x ?q)"
    unfolding c by (simp add: algebra_simps)
  also have "\<dots> = - (line_b l * (pt_y ?q - pt_y ?p)) * pt_x ?p
                    - line_b l * pt_y ?p * (pt_x ?p - pt_x ?q)"
    by (simp only: h)
  also have "\<dots> = line_b l * (pt_x ?q * pt_y ?p - pt_x ?p * pt_y ?q)"
    by (simp add: algebra_simps)
  finally have "line_c l * (pt_x ?p - pt_x ?q)
      = line_b l * (pt_x ?q * pt_y ?p - pt_x ?p * pt_y ?q)" .
  with par show ?thesis by (simp add: IsSame_def Line_of_points_def Let_def)
qed

text \<open>
  C5. Whenever \<^verbatim>\<open>Ray::CrossesSegment\<close> reaches the intersection computation (the ray's
  line passes the sign test on the segment and the two lines are not \<open>IsSame\<close>), the
  denominator is nonzero, so both coordinates come from the division and the result is
  the forward-half test on the quotient point.
\<close>

theorem Ray_denominator_nonzero:
  assumes "CrossesSegment_Line (Line_of_Ray r) s"
    and "\<not> IsSame (Line_of_Ray r) (Line_of_points (seg_begin s) (seg_end s))"
  shows "denominator (Line_of_Ray r) (Line_of_points (seg_begin s) (seg_end s)) \<noteq> 0 \<and>
         CrossesSegment_Ray r s =
           (0 \<le> sint (Vector_dot
              (mkVector
                 (narrow (sdiv64
                    (x_numerator (Line_of_Ray r) (Line_of_points (seg_begin s) (seg_end s)))
                    (denominator (Line_of_Ray r) (Line_of_points (seg_begin s) (seg_end s))))
                  - pt_x (ray_begin r))
                 (narrow (sdiv64
                    (y_numerator (Line_of_Ray r) (Line_of_points (seg_begin s) (seg_end s)))
                    (denominator (Line_of_Ray r) (Line_of_points (seg_begin s) (seg_end s))))
                  - pt_y (ray_begin r)))
              (ray_direction r)))"
proof -
  have "\<not> IsParalel (Line_of_Ray r) (Line_of_points (seg_begin s) (seg_end s))"
    using assms parallel_crossing_is_same by blast
  then have den: "denominator (Line_of_Ray r) (Line_of_points (seg_begin s) (seg_end s)) \<noteq> 0"
    by (simp add: denominator_eq_0)
  show ?thesis
    using assms den by (simp add: CrossesSegment_Ray_def Let_def)
qed

text \<open>
  The ray from the origin along \<open>(1, 0)\<close> and the segment from \<open>(2, -1)\<close> to \<open>(2, 1)\<close>: the
  denominator is \<open>-2\<close> and the ray crosses.
\<close>

theorem Ray_denominator_nonzero_witness:
  "CrossesSegment_Line (Line_of_Ray \<lparr>ray_begin = mkPoint 0 0, ray_direction = mkVector 1 0\<rparr>)
     (mkSegment (mkPoint 2 (- 1)) (mkPoint 2 1)) \<and>
   \<not> IsSame (Line_of_Ray \<lparr>ray_begin = mkPoint 0 0, ray_direction = mkVector 1 0\<rparr>)
     (Line_of_points (mkPoint 2 (- 1)) (mkPoint 2 1)) \<and>
   denominator (Line_of_Ray \<lparr>ray_begin = mkPoint 0 0, ray_direction = mkVector 1 0\<rparr>)
     (Line_of_points (mkPoint 2 (- 1)) (mkPoint 2 1)) = - 2 \<and>
   CrossesSegment_Ray \<lparr>ray_begin = mkPoint 0 0, ray_direction = mkVector 1 0\<rparr>
     (mkSegment (mkPoint 2 (- 1)) (mkPoint 2 1))"
proof -
  let ?r = "\<lparr>ray_begin = mkPoint 0 0, ray_direction = mkVector 1 0\<rparr>"
  let ?s = "mkSegment (mkPoint 2 (- 1)) (mkPoint 2 1)"
  have h1: "CrossesSegment_Line (Line_of_Ray ?r) ?s"
    by (simp add: geom_defs Let_def)
  have h2: "\<not> IsSame (Line_of_Ray ?r) (Line_of_points (seg_begin ?s) (seg_end ?s))"
    by (simp add: geom_defs Let_def)
  have d: "denominator (Line_of_Ray ?r) (Line_of_points (mkPoint 2 (- 1)) (mkPoint 2 1)) = - 2"
    by (simp add: denominator_def CalculateDeterminant_def geom_defs Let_def)
  have x: "x_numerator (Line_of_Ray ?r) (Line_of_points (mkPoint 2 (- 1)) (mkPoint 2 1)) = - 4"
    by (simp add: x_numerator_def CalculateDeterminant_def geom_defs Let_def)
  have y: "y_numerator (Line_of_Ray ?r) (Line_of_points (mkPoint 2 (- 1)) (mkPoint 2 1)) = 0"
    by (simp add: y_numerator_def CalculateDeterminant_def geom_defs Let_def)
  have e: "seg_begin ?s = mkPoint 2 (- 1)" "seg_end ?s = mkPoint 2 1"
    by (simp_all add: mkSegment_def mkPoint_def)
  from Ray_denominator_nonzero [OF h1 h2] h1 h2 show ?thesis
    unfolding e d x y
    by (simp add: mkVector_def mkPoint_def Vector_dot_def narrow_def sdiv64_def
        signed_divide_int_def)
qed

text \<open>
  C9. A ray whose direction is the zero vector has the line \<open>(0, 0, 0)\<close>: it contains
  every point and crosses every segment.
\<close>

theorem Ray_zero_direction:
  assumes "ray_direction r = mkVector 0 0"
  shows "ContainsPoint_Ray r p \<and> CrossesSegment_Ray r s"
proof -
  have l: "Line_of_Ray r = \<lparr>line_a = 0, line_b = 0, line_c = 0\<rparr>"
    using assms by (simp add: Line_of_Ray_def mkVector_def Let_def)
  have cp: "ContainsPoint_Ray r q" for q
    using assms by (simp add: ContainsPoint_Ray_def l ContainsPoint_Line_def Vector_dot_def
        mkVector_def Let_def)
  have cl: "CrossesSegment_Line (Line_of_Ray r) s"
    by (simp add: l CrossesSegment_Line_def PutPointIntoEquation_def widen_def)
  have same: "IsSame (Line_of_Ray r) l2" for l2
    by (simp add: l IsSame_def IsParalel_def)
  show ?thesis
    using cp cl same by (simp add: CrossesSegment_Ray_def Let_def)
qed

theorem Ray_zero_direction_witness:
  "ray_direction \<lparr>ray_begin = mkPoint 3 4, ray_direction = mkVector 0 0\<rparr> = mkVector 0 0 \<and>
   ContainsPoint_Ray \<lparr>ray_begin = mkPoint 3 4, ray_direction = mkVector 0 0\<rparr>
     (mkPoint (- 7) 100) \<and>
   CrossesSegment_Ray \<lparr>ray_begin = mkPoint 3 4, ray_direction = mkVector 0 0\<rparr>
     (mkSegment (mkPoint 50 60) (mkPoint 70 90))"
  using Ray_zero_direction [of "\<lparr>ray_begin = mkPoint 3 4, ray_direction = mkVector 0 0\<rparr>"
      "mkPoint (- 7) 100" "mkSegment (mkPoint 50 60) (mkPoint 70 90)"]
  by simp

section \<open>Circle against segment\<close>

lemma mkSegment_sel: "seg_begin (mkSegment a b) = a" "seg_end (mkSegment a b) = b"
  by (simp_all add: mkSegment_def mkPoint_def)

lemma Vector_dot_commute: "Vector_dot v w = Vector_dot w v"
  by (simp add: Vector_dot_def mult.commute)

text \<open>Swapping the endpoints negates all three coefficients of both lines.\<close>

lemma IsSame_swap:
  "IsSame (Line_of_points c (Point_plus c (Point_minus b a))) (Line_of_points a b)
 = IsSame (Line_of_points c (Point_plus c (Point_minus a b))) (Line_of_points b a)"
  by (simp add: IsSame_def IsParalel_def Line_of_points_def Point_plus_def Point_minus_def
      mkPoint_def Let_def algebra_simps)

lemma circle_line_swap:
  "line_a (Line_of_points c (Point_plus c (Point_minus a b)))
     = - line_a (Line_of_points c (Point_plus c (Point_minus b a)))"
  "line_b (Line_of_points c (Point_plus c (Point_minus a b)))
     = - line_b (Line_of_points c (Point_plus c (Point_minus b a)))"
  "line_c (Line_of_points c (Point_plus c (Point_minus a b)))
     = - line_c (Line_of_points c (Point_plus c (Point_minus b a)))"
  by (simp_all add: Line_of_points_def Point_plus_def Point_minus_def mkPoint_def Let_def
      algebra_simps)

lemma seg_line_swap:
  "line_a (Line_of_points b a) = - line_a (Line_of_points a b)"
  "line_b (Line_of_points b a) = - line_b (Line_of_points a b)"
  "line_c (Line_of_points b a) = - line_c (Line_of_points a b)"
  by (simp_all add: Line_of_points_def Let_def)

lemma IsDistanceEqualRadius_swap:
  "IsDistanceEqualRadius (Line_of_points c (Point_plus c (Point_minus b a))) (Line_of_points a b) r
 = IsDistanceEqualRadius (Line_of_points c (Point_plus c (Point_minus a b))) (Line_of_points b a) r"
proof -
  have sq: "(- x - - y) * (- x - - y) = (x - y) * (x - y)" for x y :: int32
    by (simp add: algebra_simps)
  show ?thesis
    unfolding IsDistanceEqualRadius_def circle_line_swap [of c a b] seg_line_swap [of b a] sq
    by simp
qed

text \<open>
  C6. Circle-segment crossing does not depend on the order of the segment's endpoints.
  The proof is ring arithmetic and holds for all 32-bit inputs.
\<close>

theorem Circle_CrossesSegment_swap:
  "CrossesSegment_Circle C (mkSegment a b) = CrossesSegment_Circle C (mkSegment b a)"
proof -
  have "CrossesSegment_Circle C (mkSegment a b)
      = (if ContainsPointInPerimetr C a \<or> ContainsPointInPerimetr C b then True
         else if (ContainsPoint_Circle C a \<and> \<not> ContainsPoint_Circle C b) \<or>
                 (ContainsPoint_Circle C b \<and> \<not> ContainsPoint_Circle C a) then True
         else if \<not> ContainsPoint_Circle C a \<and> \<not> ContainsPoint_Circle C b then
           if IsSame (Line_of_points (center C) (Point_plus (center C) (Point_minus b a)))
                     (Line_of_points a b)
           then sint (Vector_dot (Vector_of_Point (Point_minus a (center C)))
                                 (Vector_of_Point (Point_minus b (center C)))) < 0
           else IsDistanceEqualRadius
                  (Line_of_points (center C) (Point_plus (center C) (Point_minus b a)))
                  (Line_of_points a b) (radius C)
         else False)" for a b
    by (simp add: CrossesSegment_Circle_def mkSegment_sel Let_def)
  then show ?thesis
    using IsSame_swap [of "center C" b a] IsDistanceEqualRadius_swap [of "center C" b a "radius C"]
      Vector_dot_commute [of "Vector_of_Point (Point_minus a (center C))"]
    by auto
qed

text \<open>The circle of radius 5 about the origin and the chord from \<open>(-10, 3)\<close> to \<open>(10, 3)\<close>.\<close>

theorem Circle_CrossesSegment_swap_witness:
  "CrossesSegment_Circle \<lparr>center = mkPoint 0 0, radius = 5\<rparr>
     (mkSegment (mkPoint (- 10) 3) (mkPoint 10 3)) \<and>
   CrossesSegment_Circle \<lparr>center = mkPoint 0 0, radius = 5\<rparr>
     (mkSegment (mkPoint 10 3) (mkPoint (- 10) 3))"
proof -
  have "CrossesSegment_Circle \<lparr>center = mkPoint 0 0, radius = 5\<rparr>
     (mkSegment (mkPoint (- 10) 3) (mkPoint 10 3))"
    by (simp add: CrossesSegment_Circle_def ContainsPointInPerimetr_def
        ContainsPoint_Circle_def IsDistanceEqualRadius_def geom_defs Let_def)
  with Circle_CrossesSegment_swap [of "\<lparr>center = mkPoint 0 0, radius = 5\<rparr>"
      "mkPoint (- 10) 3" "mkPoint 10 3"]
  show ?thesis by simp
qed

subsection \<open>Both endpoints outside\<close>

lemma seg_line_exact:
  "line_a (Line_of_points (seg_begin s) (seg_end s)) = word_of_int (seg_a s)"
  "line_b (Line_of_points (seg_begin s) (seg_end s)) = word_of_int (seg_b s)"
  "line_c (Line_of_points (seg_begin s) (seg_end s)) = word_of_int (seg_c s)"
  by (simp_all add: Line_of_points_def Let_def seg_a_def seg_b_def seg_c_def)

text \<open>
  The line through the center has the \<open>a\<close> and \<open>b\<close> of the segment's line, and the
  difference of the two \<open>c\<close> coefficients is the segment's line evaluated at the center
  (negated).
\<close>

lemma circle_line_coeffs:
  "line_a (Line_of_points c (Point_plus c (Point_minus e b))) = line_a (Line_of_points b e)"
  "line_b (Line_of_points c (Point_plus c (Point_minus e b))) = line_b (Line_of_points b e)"
  "line_c (Line_of_points c (Point_plus c (Point_minus e b))) - line_c (Line_of_points b e)
     = - (line_a (Line_of_points b e) * pt_x c + line_b (Line_of_points b e) * pt_y c
          + line_c (Line_of_points b e))"
  by (simp_all add: Line_of_points_def Point_plus_def Point_minus_def mkPoint_def Let_def
      algebra_simps)

lemma circle_line_c_exact:
  "line_c (Line_of_points c (Point_plus c (Point_minus (seg_end s) (seg_begin s))))
     - line_c (Line_of_points (seg_begin s) (seg_end s)) = - word_of_int (seg_value s c)"
proof -
  let ?sl = "Line_of_points (seg_begin s) (seg_end s)"
  have "line_c (Line_of_points c (Point_plus c (Point_minus (seg_end s) (seg_begin s))))
          - line_c ?sl
      = - (line_a ?sl * pt_x c + line_b ?sl * pt_y c + line_c ?sl)"
    by (rule circle_line_coeffs(3))
  also have "\<dots> = - word_of_int (seg_value s c)"
    by (simp add: seg_line_exact seg_value_def)
  finally show ?thesis .
qed

text \<open>The squared forms of "distance at most \<open>R\<close>" and "distance equal to \<open>R\<close>".\<close>

lemma dist_le_iff:
  fixes E R N :: real
  assumes "0 \<le> R" "0 < N"
  shows "\<bar>E\<bar> / sqrt N \<le> R \<longleftrightarrow> E\<^sup>2 \<le> R\<^sup>2 * N"
proof -
  have s: "0 < sqrt N" using assms by simp
  have nn: "0 \<le> R * sqrt N" using assms by simp
  have "\<bar>E\<bar> / sqrt N \<le> R \<longleftrightarrow> \<bar>E\<bar> \<le> R * sqrt N"
    using s by (simp add: pos_divide_le_eq)
  also have "\<dots> \<longleftrightarrow> \<bar>E\<bar> \<le> \<bar>R * sqrt N\<bar>"
    using nn by (simp only: abs_of_nonneg)
  also have "\<dots> \<longleftrightarrow> E\<^sup>2 \<le> (R * sqrt N)\<^sup>2"
    by (rule abs_le_square_iff)
  also have "\<dots> \<longleftrightarrow> E\<^sup>2 \<le> R\<^sup>2 * N"
    using assms by (simp add: power_mult_distrib)
  finally show ?thesis .
qed

lemma dist_eq_iff:
  fixes E R N :: real
  assumes "0 \<le> R" "0 < N"
  shows "\<bar>E\<bar> / sqrt N = R \<longleftrightarrow> E\<^sup>2 = R\<^sup>2 * N"
proof -
  have s: "0 < sqrt N" using assms by simp
  have nn: "0 \<le> R * sqrt N" using assms by simp
  have "\<bar>E\<bar> / sqrt N = R \<longleftrightarrow> \<bar>E\<bar> = R * sqrt N"
    using s by (simp add: divide_eq_eq)
  also have "\<dots> \<longleftrightarrow> \<bar>E\<bar>\<^sup>2 = (R * sqrt N)\<^sup>2"
    using nn by (simp only: power2_eq_iff_nonneg abs_ge_zero)
  also have "\<dots> \<longleftrightarrow> E\<^sup>2 = R\<^sup>2 * N"
    using assms by (simp add: power_mult_distrib)
  finally show ?thesis .
qed

lemma norm_pos:
  assumes "seg_b s \<noteq> 0"
  shows "0 < real_of_int ((seg_a s)\<^sup>2 + (seg_b s)\<^sup>2)"
proof -
  have "0 < (seg_b s)\<^sup>2" using assms by simp
  then have "0 < (seg_a s)\<^sup>2 + (seg_b s)\<^sup>2"
    by (simp add: add_nonneg_pos)
  then show ?thesis by linarith
qed

lemma perp_dist_le_iff:
  assumes "0 \<le> R" "seg_b s \<noteq> 0"
  shows "perp_dist p s \<le> real_of_int R
     \<longleftrightarrow> (seg_value s p)\<^sup>2 \<le> R\<^sup>2 * ((seg_a s)\<^sup>2 + (seg_b s)\<^sup>2)"
proof -
  have N: "0 < real_of_int ((seg_a s)\<^sup>2 + (seg_b s)\<^sup>2)" using assms(2) by (rule norm_pos)
  have R: "0 \<le> real_of_int R" using assms by simp
  have "perp_dist p s \<le> real_of_int R
     \<longleftrightarrow> (real_of_int (seg_value s p))\<^sup>2
           \<le> (real_of_int R)\<^sup>2 * real_of_int ((seg_a s)\<^sup>2 + (seg_b s)\<^sup>2)"
    unfolding perp_dist_def by (rule dist_le_iff [OF R N])
  also have "\<dots> \<longleftrightarrow> real_of_int ((seg_value s p)\<^sup>2)
           \<le> real_of_int (R\<^sup>2 * ((seg_a s)\<^sup>2 + (seg_b s)\<^sup>2))"
    by simp
  also have "\<dots> \<longleftrightarrow> (seg_value s p)\<^sup>2 \<le> R\<^sup>2 * ((seg_a s)\<^sup>2 + (seg_b s)\<^sup>2)"
    by (rule of_int_le_iff)
  finally show ?thesis .
qed

lemma perp_dist_eq_iff:
  assumes "0 \<le> R" "seg_b s \<noteq> 0"
  shows "perp_dist p s = real_of_int R
     \<longleftrightarrow> (seg_value s p)\<^sup>2 = R\<^sup>2 * ((seg_a s)\<^sup>2 + (seg_b s)\<^sup>2)"
proof -
  have N: "0 < real_of_int ((seg_a s)\<^sup>2 + (seg_b s)\<^sup>2)" using assms(2) by (rule norm_pos)
  have R: "0 \<le> real_of_int R" using assms by simp
  have "perp_dist p s = real_of_int R
     \<longleftrightarrow> (real_of_int (seg_value s p))\<^sup>2
           = (real_of_int R)\<^sup>2 * real_of_int ((seg_a s)\<^sup>2 + (seg_b s)\<^sup>2)"
    unfolding perp_dist_def by (rule dist_eq_iff [OF R N])
  also have "\<dots> \<longleftrightarrow> real_of_int ((seg_value s p)\<^sup>2)
           = real_of_int (R\<^sup>2 * ((seg_a s)\<^sup>2 + (seg_b s)\<^sup>2))"
    by simp
  also have "\<dots> \<longleftrightarrow> (seg_value s p)\<^sup>2 = R\<^sup>2 * ((seg_a s)\<^sup>2 + (seg_b s)\<^sup>2)"
    by (rule of_int_eq_iff)
  finally show ?thesis .
qed

lemma Perimetr_imp_ContainsPoint:
  "ContainsPointInPerimetr C p \<Longrightarrow> ContainsPoint_Circle C p"
  by (simp add: ContainsPointInPerimetr_def ContainsPoint_Circle_def Let_def)

text \<open>With both endpoints outside and the two lines not \<open>IsSame\<close>, the distance test decides.\<close>

lemma CrossesSegment_Circle_outside:
  assumes "\<not> ContainsPoint_Circle C (seg_begin s)" "\<not> ContainsPoint_Circle C (seg_end s)"
    and "\<not> IsSame (Line_of_points (center C)
                     (Point_plus (center C) (Point_minus (seg_end s) (seg_begin s))))
                  (Line_of_points (seg_begin s) (seg_end s))"
  shows "CrossesSegment_Circle C s =
           IsDistanceEqualRadius
             (Line_of_points (center C)
                (Point_plus (center C) (Point_minus (seg_end s) (seg_begin s))))
             (Line_of_points (seg_begin s) (seg_end s)) (radius C)"
  using assms Perimetr_imp_ContainsPoint [of C "seg_begin s"]
    Perimetr_imp_ContainsPoint [of C "seg_end s"]
  by (auto simp: CrossesSegment_Circle_def Let_def)

text \<open>
  The two lines always pass the parallel test, so \<open>IsSame\<close> fails only if the segment is
  not vertical and its line misses the center.
\<close>

lemma not_IsSame_circle_line:
  assumes "\<not> IsSame (Line_of_points c (Point_plus c (Point_minus (seg_end s) (seg_begin s))))
                  (Line_of_points (seg_begin s) (seg_end s))"
  shows "seg_b s \<noteq> 0 \<and> seg_value s c \<noteq> 0"
proof -
  let ?cl = "Line_of_points c (Point_plus c (Point_minus (seg_end s) (seg_begin s)))"
  let ?sl = "Line_of_points (seg_begin s) (seg_end s)"
  have par: "IsParalel ?cl ?sl"
    by (simp add: IsParalel_def circle_line_coeffs)
  with assms have "line_c ?cl * line_b ?sl \<noteq> line_b ?sl * line_c ?sl"
    by (simp add: IsSame_def circle_line_coeffs)
  then have "(line_c ?cl - line_c ?sl) * line_b ?sl \<noteq> 0"
    by (simp add: algebra_simps)
  then have "- word_of_int (seg_value s c) * word_of_int (seg_b s) \<noteq> (0 :: int32)"
    unfolding circle_line_c_exact seg_line_exact(2) .
  then show ?thesis by auto
qed

text \<open>
  C3, as the claim states it: with both endpoints outside and the lines not \<open>IsSame\<close>,
  crossing would hold only at distance exactly the radius. The circle of radius 5 about
  the origin and the segment from \<open>(-10, 3)\<close> to \<open>(10, 3)\<close> satisfy the conditions, the
  distance is 3, and the program reports a crossing.
\<close>

theorem CrossesSegment_Circle_secant_counterexample:
  "\<not> ContainsPoint_Circle \<lparr>center = mkPoint 0 0, radius = 5\<rparr> (mkPoint (- 10) 3) \<and>
   \<not> ContainsPoint_Circle \<lparr>center = mkPoint 0 0, radius = 5\<rparr> (mkPoint 10 3) \<and>
   \<not> IsSame (Line_of_points (mkPoint 0 0)
               (Point_plus (mkPoint 0 0) (Point_minus (mkPoint 10 3) (mkPoint (- 10) 3))))
            (Line_of_points (mkPoint (- 10) 3) (mkPoint 10 3)) \<and>
   CrossesSegment_Circle \<lparr>center = mkPoint 0 0, radius = 5\<rparr>
     (mkSegment (mkPoint (- 10) 3) (mkPoint 10 3)) \<and>
   perp_dist (mkPoint 0 0) (mkSegment (mkPoint (- 10) 3) (mkPoint 10 3)) = 3 \<and>
   perp_dist (mkPoint 0 0) (mkSegment (mkPoint (- 10) 3) (mkPoint 10 3))
     \<noteq> real_of_int (sint (radius \<lparr>center = mkPoint 0 0, radius = 5\<rparr>))"
proof -
  let ?s = "mkSegment (mkPoint (- 10) 3) (mkPoint 10 3)"
  have v: "seg_a ?s = 0" "seg_b ?s = - 20" "seg_value ?s (mkPoint 0 0) = 60"
    by (simp_all add: seg_a_def seg_b_def seg_c_def seg_value_def mkSegment_def mkPoint_def)
  have d: "perp_dist (mkPoint 0 0) ?s = 3"
    using perp_dist_eq_iff [of 3 ?s "mkPoint 0 0"] by (simp add: v)
  have "\<not> ContainsPoint_Circle \<lparr>center = mkPoint 0 0, radius = 5\<rparr> (mkPoint (- 10) 3)"
    "\<not> ContainsPoint_Circle \<lparr>center = mkPoint 0 0, radius = 5\<rparr> (mkPoint 10 3)"
    by (simp_all add: ContainsPoint_Circle_def geom_defs Let_def)
  moreover have "\<not> IsSame (Line_of_points (mkPoint 0 0)
               (Point_plus (mkPoint 0 0) (Point_minus (mkPoint 10 3) (mkPoint (- 10) 3))))
            (Line_of_points (mkPoint (- 10) 3) (mkPoint 10 3))"
    by (simp add: geom_defs Let_def)
  moreover have "CrossesSegment_Circle \<lparr>center = mkPoint 0 0, radius = 5\<rparr> ?s"
    by (simp add: CrossesSegment_Circle_def ContainsPointInPerimetr_def
        ContainsPoint_Circle_def IsDistanceEqualRadius_def geom_defs Let_def)
  ultimately show ?thesis using d by simp
qed

text \<open>
  C3, amended: for a circle of nonnegative radius and a segment with both endpoints
  outside (\<open>ContainsPoint\<close> fails for both) and the two lines not \<open>IsSame\<close>, and with the
  two compared quantities - the squared value of the segment's line at the center and
  \<open>r\<^sup>2 (a\<^sup>2 + b\<^sup>2)\<close> - fitting a 32-bit \<^verbatim>\<open>int\<close>, \<^verbatim>\<open>CrossesSegment\<close> returns true if and only if the
  perpendicular distance from the center to the segment's line is at most the radius.
\<close>

theorem CrossesSegment_Circle_outside_distance:
  assumes out1: "\<not> ContainsPoint_Circle C (seg_begin s)"
    and out2: "\<not> ContainsPoint_Circle C (seg_end s)"
    and ns: "\<not> IsSame (Line_of_points (center C)
                     (Point_plus (center C) (Point_minus (seg_end s) (seg_begin s))))
                  (Line_of_points (seg_begin s) (seg_end s))"
    and r: "0 \<le> sint (radius C)"
    and f1: "fits32 ((seg_value s (center C))\<^sup>2)"
    and f2: "fits32 ((sint (radius C))\<^sup>2 * ((seg_a s)\<^sup>2 + (seg_b s)\<^sup>2))"
  shows "CrossesSegment_Circle C s \<longleftrightarrow> perp_dist (center C) s \<le> real_of_int (sint (radius C))"
proof -
  let ?cl = "Line_of_points (center C)
               (Point_plus (center C) (Point_minus (seg_end s) (seg_begin s)))"
  let ?sl = "Line_of_points (seg_begin s) (seg_end s)"
  let ?E = "seg_value s (center C)" and ?R = "sint (radius C)"
  let ?N = "(seg_a s)\<^sup>2 + (seg_b s)\<^sup>2"
  from not_IsSame_circle_line [OF ns] have b: "seg_b s \<noteq> 0" and E: "?E \<noteq> 0" by simp_all
  have geo: "perp_dist (center C) s \<le> real_of_int ?R \<longleftrightarrow> ?E\<^sup>2 \<le> ?R\<^sup>2 * ?N"
    using r b by (rule perp_dist_le_iff)
  have code: "CrossesSegment_Circle C s = IsDistanceEqualRadius ?cl ?sl (radius C)"
    using out1 out2 ns by (rule CrossesSegment_Circle_outside)
  have lhs: "(line_c ?cl - line_c ?sl) * (line_c ?cl - line_c ?sl) = word_of_int (?E\<^sup>2)"
    unfolding circle_line_c_exact by (simp add: power2_eq_square)
  have "radius C * radius C * (line_a ?cl * line_a ?cl + line_b ?cl * line_b ?cl)
      = word_of_int ?R * word_of_int ?R
        * (word_of_int (seg_a s) * word_of_int (seg_a s)
           + word_of_int (seg_b s) * word_of_int (seg_b s))"
    unfolding circle_line_coeffs seg_line_exact by simp
  also have "\<dots> = word_of_int (?R\<^sup>2 * ?N)"
    by (simp add: power2_eq_square)
  finally have rhs: "radius C * radius C * (line_a ?cl * line_a ?cl + line_b ?cl * line_b ?cl)
      = word_of_int (?R\<^sup>2 * ?N)" .
  show ?thesis
  proof (cases "radius C = 0")
    case True
    then have "?R = 0" by simp
    moreover have "0 < ?E\<^sup>2" using E by simp
    ultimately have "\<not> ?E\<^sup>2 \<le> ?R\<^sup>2 * ?N" by simp
    moreover have "\<not> IsDistanceEqualRadius ?cl ?sl (radius C)"
      using True by (simp add: IsDistanceEqualRadius_def)
    ultimately show ?thesis using geo code by simp
  next
    case False
    then have "IsDistanceEqualRadius ?cl ?sl (radius C)
          \<longleftrightarrow> sint (word_of_int (?E\<^sup>2) :: int32) \<le> sint (word_of_int (?R\<^sup>2 * ?N) :: int32)"
      unfolding IsDistanceEqualRadius_def lhs rhs by simp
    also have "\<dots> \<longleftrightarrow> ?E\<^sup>2 \<le> ?R\<^sup>2 * ?N"
      using f1 f2 by (simp only: sint_word_of_int_fits)
    finally show ?thesis using geo code by simp
  qed
qed

text \<open>The same circle and chord: every hypothesis holds, and the distance 3 is below 5.\<close>

theorem CrossesSegment_Circle_outside_distance_witness:
  "\<not> ContainsPoint_Circle \<lparr>center = mkPoint 0 0, radius = 5\<rparr> (mkPoint (- 10) 3) \<and>
   \<not> ContainsPoint_Circle \<lparr>center = mkPoint 0 0, radius = 5\<rparr> (mkPoint 10 3) \<and>
   \<not> IsSame (Line_of_points (mkPoint 0 0)
               (Point_plus (mkPoint 0 0) (Point_minus (mkPoint 10 3) (mkPoint (- 10) 3))))
            (Line_of_points (mkPoint (- 10) 3) (mkPoint 10 3)) \<and>
   fits32 ((seg_value (mkSegment (mkPoint (- 10) 3) (mkPoint 10 3)) (mkPoint 0 0))\<^sup>2) \<and>
   fits32 (5\<^sup>2 * ((seg_a (mkSegment (mkPoint (- 10) 3) (mkPoint 10 3)))\<^sup>2
                 + (seg_b (mkSegment (mkPoint (- 10) 3) (mkPoint 10 3)))\<^sup>2)) \<and>
   CrossesSegment_Circle \<lparr>center = mkPoint 0 0, radius = 5\<rparr>
     (mkSegment (mkPoint (- 10) 3) (mkPoint 10 3)) \<and>
   perp_dist (mkPoint 0 0) (mkSegment (mkPoint (- 10) 3) (mkPoint 10 3)) \<le> 5"
proof -
  let ?C = "\<lparr>center = mkPoint 0 0, radius = 5\<rparr>"
  let ?s = "mkSegment (mkPoint (- 10) 3) (mkPoint 10 3)"
  have v: "seg_a ?s = 0" "seg_b ?s = - 20" "seg_value ?s (mkPoint 0 0) = 60"
    by (simp_all add: seg_a_def seg_b_def seg_c_def seg_value_def mkSegment_def mkPoint_def)
  have sel: "seg_begin ?s = mkPoint (- 10) 3" "seg_end ?s = mkPoint 10 3" "center ?C = mkPoint 0 0"
    "sint (radius ?C) = 5"
    by (simp_all add: mkSegment_def mkPoint_def)
  have out: "\<not> ContainsPoint_Circle ?C (seg_begin ?s)" "\<not> ContainsPoint_Circle ?C (seg_end ?s)"
    by (simp_all add: ContainsPoint_Circle_def geom_defs Let_def)
  have ns: "\<not> IsSame (Line_of_points (center ?C)
                     (Point_plus (center ?C) (Point_minus (seg_end ?s) (seg_begin ?s))))
                  (Line_of_points (seg_begin ?s) (seg_end ?s))"
    by (simp add: geom_defs Let_def)
  have r: "0 \<le> sint (radius ?C)" by simp
  have f1: "fits32 ((seg_value ?s (center ?C))\<^sup>2)"
    unfolding sel v by (simp add: fits32_def)
  have f2: "fits32 ((sint (radius ?C))\<^sup>2 * ((seg_a ?s)\<^sup>2 + (seg_b ?s)\<^sup>2))"
    unfolding sel v by (simp add: fits32_def)
  have cr: "CrossesSegment_Circle ?C ?s"
    by (simp add: CrossesSegment_Circle_def ContainsPointInPerimetr_def
        ContainsPoint_Circle_def IsDistanceEqualRadius_def geom_defs Let_def)
  from CrossesSegment_Circle_outside_distance [OF out ns r f1 f2] cr
  have "perp_dist (mkPoint 0 0) ?s \<le> 5"
    unfolding sel by simp
  with out ns f1 f2 cr show ?thesis
    unfolding sel by simp
qed

text \<open>
  The two size conditions hold in particular when the six coordinates and the radius are
  at most 87 in absolute value.
\<close>

lemma small_coordinates_fit:
  assumes "small_coordinates C s"
  shows "fits32 ((seg_value s (center C))\<^sup>2) \<and>
         fits32 ((sint (radius C))\<^sup>2 * ((seg_a s)\<^sup>2 + (seg_b s)\<^sup>2))"
proof -
  define cx cy x1 y1 x2 y2 R where "cx = sint (pt_x (center C))" and "cy = sint (pt_y (center C))"
    and "x1 = sint (pt_x (seg_begin s))" and "y1 = sint (pt_y (seg_begin s))"
    and "x2 = sint (pt_x (seg_end s))" and "y2 = sint (pt_y (seg_end s))"
    and "R = sint (radius C)"
  note defs = cx_def cy_def x1_def y1_def x2_def y2_def R_def
  from assms have bd: "\<bar>cx\<bar> \<le> 87" "\<bar>cy\<bar> \<le> 87" "\<bar>x1\<bar> \<le> 87" "\<bar>y1\<bar> \<le> 87"
    "\<bar>x2\<bar> \<le> 87" "\<bar>y2\<bar> \<le> 87" "0 \<le> R" "R \<le> 87"
    by (simp_all add: small_coordinates_def defs)
  have A: "\<bar>seg_a s\<bar> \<le> 174" and B: "\<bar>seg_b s\<bar> \<le> 174"
    using bd by (simp_all add: seg_a_def seg_b_def flip: defs)
  have "\<bar>x2 * y1\<bar> \<le> 87 * 87" "\<bar>x1 * y2\<bar> \<le> 87 * 87"
    using bd by (intro abs_mult_le; simp)+
  then have Cc: "\<bar>seg_c s\<bar> \<le> 15138"
    by (simp add: seg_c_def flip: defs)
  have "\<bar>seg_a s * cx\<bar> \<le> 174 * 87" "\<bar>seg_b s * cy\<bar> \<le> 174 * 87"
    using A B bd by (intro abs_mult_le; simp)+
  with Cc have E: "\<bar>seg_value s (center C)\<bar> \<le> 45414"
    by (simp add: seg_value_def flip: defs)
  have "\<bar>seg_value s (center C) * seg_value s (center C)\<bar> \<le> 45414 * 45414"
    using E by (intro abs_mult_le; simp)
  then have "seg_value s (center C) * seg_value s (center C) \<le> 2062431396" by simp
  moreover have "0 \<le> seg_value s (center C) * seg_value s (center C)" by simp
  ultimately have 1: "fits32 ((seg_value s (center C))\<^sup>2)"
    unfolding power2_eq_square by (intro fits32_nonneg) linarith+
  have AA: "\<bar>seg_a s * seg_a s\<bar> \<le> 174 * 174" and BB: "\<bar>seg_b s * seg_b s\<bar> \<le> 174 * 174"
    using A B by (intro abs_mult_le; simp)+
  then have N: "\<bar>(seg_a s)\<^sup>2 + (seg_b s)\<^sup>2\<bar> \<le> 60552"
    by (simp add: power2_eq_square)
  have "\<bar>R\<bar> \<le> 87" using bd by simp
  then have "\<bar>R * R\<bar> \<le> 87 * 87" by (intro abs_mult_le; simp)
  then have RR: "\<bar>R\<^sup>2\<bar> \<le> 7569" by (simp add: power2_eq_square)
  have "\<bar>R\<^sup>2 * ((seg_a s)\<^sup>2 + (seg_b s)\<^sup>2)\<bar> \<le> 7569 * 60552"
    using RR N by (rule abs_mult_le)
  moreover have "0 \<le> R\<^sup>2 * ((seg_a s)\<^sup>2 + (seg_b s)\<^sup>2)" by simp
  ultimately have 2: "fits32 (R\<^sup>2 * ((seg_a s)\<^sup>2 + (seg_b s)\<^sup>2))"
    by (intro fits32_nonneg) linarith+
  from 1 2 show ?thesis by (simp add: R_def)
qed

section \<open>Polygon\<close>

text \<open>
  C10. With a count of zero both edge loops run no iteration: no point is contained and
  no segment is crossed.
\<close>

theorem Polygon_empty:
  assumes "poly_size P = 0"
  shows "ContainsPoint_Polygon P p = Some False \<and> CrossesSegment_Polygon P s = Some False"
proof -
  have "ContainsPointWithDirection P p d = Some False" for d
    using assms
    by (simp add: ContainsPointWithDirection_def srem32_def signed_modulo_int_def)
  moreover have "CrossesSegment_Polygon P s = Some False"
    using assms by (simp add: CrossesSegment_Polygon_def)
  ultimately show ?thesis
    by (simp add: ContainsPoint_Polygon_def Let_def)
qed

theorem Polygon_empty_witness:
  "poly_size \<lparr>poly_size = 0, poly_points = []\<rparr> = 0 \<and>
   ContainsPoint_Polygon \<lparr>poly_size = 0, poly_points = []\<rparr> (mkPoint 2 2) = Some False \<and>
   CrossesSegment_Polygon \<lparr>poly_size = 0, poly_points = []\<rparr>
     (mkSegment (mkPoint 0 0) (mkPoint 4 4)) = Some False"
  using Polygon_empty [of "\<lparr>poly_size = 0, poly_points = []\<rparr>" "mkPoint 2 2"
      "mkSegment (mkPoint 0 0) (mkPoint 4 4)"]
  by simp

section \<open>Translation\<close>

text \<open>
  The loop of \<^verbatim>\<open>Polygon::Move\<close>, started at index \<open>i\<close>, moves the vertices from \<open>i\<close> up to
  the count and leaves the others.
\<close>

lemma Move_Polygon_loop_result:
  assumes "poly_size P \<le> length (poly_points P)"
  shows "Move_Polygon_loop v i P =
           Some (P\<lparr>poly_points :=
                   map (\<lambda>j. if i \<le> j \<and> j < poly_size P then moved v (poly_points P ! j)
                             else poly_points P ! j) [0..<length (poly_points P)]\<rparr>)"
  using assms
proof (induction v i P rule: Move_Polygon_loop.induct)
  case (1 v i P)
  show ?case
  proof (cases "i < poly_size P")
    case False
    then have "(\<lambda>j. if i \<le> j \<and> j < poly_size P then moved v (poly_points P ! j)
                      else poly_points P ! j) = (\<lambda>j. poly_points P ! j)"
      by (intro ext) auto
    then have "map (\<lambda>j. if i \<le> j \<and> j < poly_size P then moved v (poly_points P ! j)
                      else poly_points P ! j) [0..<length (poly_points P)] = poly_points P"
      by (simp only: map_nth)
    with False show ?thesis
      by (subst Move_Polygon_loop.simps) simp
  next
    case True
    with "1.prems" have il: "i < length (poly_points P)" by simp
    let ?P' = "P\<lparr>poly_points := (poly_points P)
                  [i := mkPoint (vec_x v + pt_x (poly_points P ! i))
                                (vec_y v + pt_y (poly_points P ! i))]\<rparr>"
    have IH: "Move_Polygon_loop v (Suc i) ?P' =
           Some (?P'\<lparr>poly_points :=
                   map (\<lambda>j. if Suc i \<le> j \<and> j < poly_size ?P' then moved v (poly_points ?P' ! j)
                             else poly_points ?P' ! j) [0..<length (poly_points ?P')]\<rparr>)"
      using "1.IH" [OF True il] "1.prems" by simp
    have step: "Move_Polygon_loop v i P = Move_Polygon_loop v (Suc i) ?P'"
      using True il by (subst Move_Polygon_loop.simps) simp
    have eqi: "x = i" if "i \<le> x" "\<not> Suc i \<le> x" for x using that by arith
    have "map (\<lambda>j. if Suc i \<le> j \<and> j < poly_size ?P' then moved v (poly_points ?P' ! j)
                             else poly_points ?P' ! j) [0..<length (poly_points ?P')]
        = map (\<lambda>j. if i \<le> j \<and> j < poly_size P then moved v (poly_points P ! j)
                             else poly_points P ! j) [0..<length (poly_points P)]"
      using True by (auto simp: moved_def nth_list_update dest: eqi)
    then show ?thesis using step IH by simp
  qed
qed

lemma moved_neg: "moved (Vector_neg v) (moved v p) = p"
  by (simp add: moved_def Vector_neg_def mkVector_def mkPoint_def)

lemma Move_Polygon_round_trip:
  assumes wf: "poly_size P \<le> length (poly_points P)"
  shows "\<exists>P'. Move_Polygon v P = Some P' \<and> Move_Polygon (Vector_neg v) P' = Some P"
proof -
  let ?n = "poly_size P" and ?pts = "poly_points P"
  let ?f = "\<lambda>j. if 0 \<le> j \<and> j < ?n then moved v (?pts ! j) else ?pts ! j"
  let ?P1 = "P\<lparr>poly_points := map ?f [0..<length ?pts]\<rparr>"
  have 1: "Move_Polygon v P = Some ?P1"
    unfolding Move_Polygon_def by (rule Move_Polygon_loop_result [OF wf])
  have wf1: "poly_size ?P1 \<le> length (poly_points ?P1)"
    using wf by simp
  let ?g = "\<lambda>j. if 0 \<le> j \<and> j < poly_size ?P1 then moved (Vector_neg v) (poly_points ?P1 ! j)
                 else poly_points ?P1 ! j"
  have 2: "Move_Polygon (Vector_neg v) ?P1
             = Some (?P1\<lparr>poly_points := map ?g [0..<length (poly_points ?P1)]\<rparr>)"
    unfolding Move_Polygon_def by (rule Move_Polygon_loop_result [OF wf1])
  have "map ?g [0..<length (poly_points ?P1)] = map (\<lambda>j. ?pts ! j) [0..<length ?pts]"
    by (auto simp: moved_neg)
  also have "\<dots> = ?pts" by (rule map_nth)
  finally have "?P1\<lparr>poly_points := map ?g [0..<length (poly_points ?P1)]\<rparr> = P"
    by simp
  with 1 2 show ?thesis by simp
qed

text \<open>
  C8. For a shape of any of the six kinds (a polygon's count within its vector of points),
  \<^verbatim>\<open>Move(v)\<close> succeeds and \<^verbatim>\<open>Move(-v)\<close> afterwards gives back the stored data exactly: the
  coordinates, and for a line its coefficients. Addition of 32-bit words is a group, so
  this holds for all values.
\<close>

theorem Move_round_trip:
  assumes "well_formed S"
  shows "\<exists>S'. Move v S = Some S' \<and> Move (Vector_neg v) S' = Some S"
proof (cases S)
  case (ShapePoint p)
  then show ?thesis
    by (simp add: Move_Point_def Vector_neg_def mkVector_def)
next
  case (ShapeSegment s)
  then show ?thesis
    by (simp add: Move_Segment_def Move_Point_def Vector_neg_def mkVector_def)
next
  case (ShapeRay r)
  then show ?thesis
    by (simp add: Move_Ray_def Vector_neg_def mkVector_def mkPoint_def)
next
  case (ShapeLine l)
  then show ?thesis
    by (simp add: Move_Line_def Vector_neg_def mkVector_def algebra_simps)
next
  case (ShapeCircle c)
  then show ?thesis
    by (simp add: Move_Circle_def Vector_neg_def mkVector_def mkPoint_def)
next
  case (ShapePolygon P)
  with assms have "poly_size P \<le> length (poly_points P)" by simp
  from Move_Polygon_round_trip [OF this, of v] ShapePolygon show ?thesis
    by auto
qed

theorem Move_round_trip_witness:
  "well_formed (ShapePolygon \<lparr>poly_size = 2, poly_points = [mkPoint 1 2, mkPoint 3 4]\<rparr>) \<and>
   Move (mkVector 5 (- 7))
     (ShapePolygon \<lparr>poly_size = 2, poly_points = [mkPoint 1 2, mkPoint 3 4]\<rparr>)
     = Some (ShapePolygon \<lparr>poly_size = 2, poly_points = [mkPoint 6 (- 5), mkPoint 8 (- 3)]\<rparr>) \<and>
   Move (Vector_neg (mkVector 5 (- 7)))
     (ShapePolygon \<lparr>poly_size = 2, poly_points = [mkPoint 6 (- 5), mkPoint 8 (- 3)]\<rparr>)
     = Some (ShapePolygon \<lparr>poly_size = 2, poly_points = [mkPoint 1 2, mkPoint 3 4]\<rparr>)"
proof -
  let ?S = "ShapePolygon \<lparr>poly_size = 2, poly_points = [mkPoint 1 2, mkPoint 3 4]\<rparr>"
  have wf: "well_formed ?S" by simp
  have m: "Move (mkVector 5 (- 7)) ?S
     = Some (ShapePolygon \<lparr>poly_size = 2, poly_points = [mkPoint 6 (- 5), mkPoint 8 (- 3)]\<rparr>)"
    by (simp add: Move_Polygon_def mkVector_def mkPoint_def)
  from Move_round_trip [OF wf, of "mkVector 5 (- 7)"] wf m show ?thesis
    by auto
qed

end
